theory Spec2Isabelle
  imports Main "HOL-Library.AList"
begin

section \<open>The room coordination service of server.js\<close>

text \<open>
  The service keeps three process-wide maps (\<open>rooms\<close>, \<open>socketToClientMap\<close>,
  \<open>socketToRoomMap\<close>) and reacts to socket.io events. A JavaScript \<open>Map\<close> keeps its keys
  in insertion order, \<open>set\<close> on a present key replaces the value in place and \<open>set\<close> on
  a new key appends: this is an association list with \<open>AList.update\<close> and
  \<open>AList.delete\<close>, looked up with \<open>map_of\<close>.

  Identifiers of sockets and of rooms are both JavaScript strings (the handler of
  \<open>joinRoom\<close> compares one with the other).
\<close>

type_synonym socket_id = string
type_synonym room_id = string

text \<open>The object stored by \<open>room.users.set(socket.id, {id, username, peerId, sockets})\<close>.\<close>

record user =
  id_user :: socket_id
  username :: string
  peerId :: "string option"
  sockets :: "socket_id list"

text \<open>The object stored by \<open>rooms.set(roomId, {users: new Map(), code: ''})\<close>.\<close>

record room =
  users :: "(socket_id \<times> user) list"
  code :: string

text \<open>An element of a broadcast \<open>userList\<close>: \<open>{id, username, peerId}\<close>.\<close>

record user_entry =
  id_entry :: socket_id
  username_entry :: string
  peerId_entry :: "string option"

text \<open>The client's \<open>ChatMessage\<close> type: \<open>id\<close> and \<open>username\<close> are optional.\<close>

record chat_message =
  id_msg :: "string option"
  text_msg :: string
  sender :: string
  timestamp :: string
  username_msg :: "string option"

text \<open>What the server emits, one constructor for each event name it uses.\<close>

datatype payload =
    Connection_established socket_id string
  | JoinRejected string string
  | Code_change string
  | UserList "user_entry list"
  | UserJoined string
  | JoinedRoom room_id nat string
  | UserLeft string
  | Chat_message chat_message

text \<open>A delivery is one payload arriving at one connection.\<close>

type_synonym delivery = "socket_id \<times> payload"

text \<open>
  The state of the process. \<open>adapter\<close> is the part of socket.io the handlers read and
  write: the connected sockets, each with its \<open>socket.rooms\<close> (a \<open>Set\<close>, in insertion
  order, whose first element is the socket's own id).
\<close>

record state =
  rooms :: "(room_id \<times> room) list"
  socketToClientMap :: "(socket_id \<times> string) list"
  socketToRoomMap :: "(socket_id \<times> room_id) list"
  adapter :: "(socket_id \<times> room_id list) list"

definition init :: state where
  "init = \<lparr>rooms = [], socketToClientMap = [], socketToRoomMap = [], adapter = []\<rparr>"

subsection \<open>JavaScript library functions used by the handlers\<close>

text \<open>
  \<open>String.prototype.toLowerCase\<close> belongs to the JavaScript runtime, not to the
  repository: every definition below that calls it takes it as the parameter
  \<open>toLowerCase\<close>, and every general theorem holds for any function in its place.

  \<open>ascii_lower\<close> is what that function does to a string of ASCII characters: it
  changes the letters A to Z and nothing else. It stands for \<open>toLowerCase\<close> only in the
  concrete runs further down, whose names are all ASCII.
\<close>

definition ascii_lower_char :: "char \<Rightarrow> char" where
  "ascii_lower_char c =
     (let n = (of_char c :: nat) in if 65 \<le> n \<and> n \<le> 90 then char_of (n + 32) else c)"

definition ascii_lower :: "string \<Rightarrow> string" where
  "ascii_lower = map ascii_lower_char"

text \<open>\<open>Array.prototype.findIndex\<close> and \<open>indexOf\<close>: the first index, or \<open>-1\<close>.\<close>

fun findIndex_from :: "('a \<Rightarrow> bool) \<Rightarrow> 'a list \<Rightarrow> int \<Rightarrow> int" where
  "findIndex_from P [] i = - 1"
| "findIndex_from P (x # xs) i = (if P x then i else findIndex_from P xs (i + 1))"

definition findIndex :: "('a \<Rightarrow> bool) \<Rightarrow> 'a list \<Rightarrow> int" where
  "findIndex P xs = findIndex_from P xs 0"

definition indexOf :: "'a list \<Rightarrow> 'a \<Rightarrow> int" where
  "indexOf xs x = findIndex (\<lambda>y. y = x) xs"

text \<open>\<open>xs.splice(i, 1)\<close> for an index \<open>i \<ge> 0\<close>: the list without its element at \<open>i\<close>.\<close>

definition splice1 :: "int \<Rightarrow> 'a list \<Rightarrow> 'a list" where
  "splice1 i xs = take (nat i) xs @ drop (Suc (nat i)) xs"

text \<open>
  \<open>self.filter((user, index, self) => index === self.findIndex(u => key(u) === key(user)))\<close>:
  an element stays when it is the first one of the list with its key.
\<close>

fun filter_indexed :: "('a \<Rightarrow> 'b) \<Rightarrow> 'a list \<Rightarrow> int \<Rightarrow> 'a list \<Rightarrow> 'a list" where
  "filter_indexed key self index [] = []"
| "filter_indexed key self index (x # xs) =
     (if index = findIndex (\<lambda>u. key u = key x) self
      then x # filter_indexed key self (index + 1) xs
      else filter_indexed key self (index + 1) xs)"

definition filter_first :: "('a \<Rightarrow> 'b) \<Rightarrow> 'a list \<Rightarrow> 'a list" where
  "filter_first key self = filter_indexed key self 0 self"

text \<open>JavaScript truthiness of a string value that may be \<open>undefined\<close>.\<close>

fun truthy :: "string option \<Rightarrow> bool" where
  "truthy None = False"
| "truthy (Some x) = (x \<noteq> [])"

subsection \<open>The socket.io primitives\<close>

definition connected :: "state \<Rightarrow> socket_id \<Rightarrow> bool" where
  "connected s sid = (map_of (adapter s) sid \<noteq> None)"

definition socket_rooms :: "state \<Rightarrow> socket_id \<Rightarrow> room_id list" where
  "socket_rooms s sid = (case map_of (adapter s) sid of None \<Rightarrow> [] | Some rs \<Rightarrow> rs)"

text \<open>The connections that are in a socket.io room: those whose \<open>socket.rooms\<close> has it.\<close>

definition in_room :: "state \<Rightarrow> room_id \<Rightarrow> socket_id list" where
  "in_room s r = map fst (filter (\<lambda>p. r \<in> set (snd p)) (adapter s))"

text \<open>\<open>socket.emit(p)\<close>, \<open>io.to(r).emit(p)\<close> and \<open>socket.to(r).emit(p)\<close>.\<close>

definition socket_emit :: "socket_id \<Rightarrow> payload \<Rightarrow> delivery list" where
  "socket_emit sid p = [(sid, p)]"

definition io_to_emit :: "state \<Rightarrow> room_id \<Rightarrow> payload \<Rightarrow> delivery list" where
  "io_to_emit s r p = map (\<lambda>k. (k, p)) (in_room s r)"

definition socket_to_emit :: "state \<Rightarrow> socket_id \<Rightarrow> room_id \<Rightarrow> payload \<Rightarrow> delivery list" where
  "socket_to_emit s sid r p = map (\<lambda>k. (k, p)) (filter (\<lambda>k. k \<noteq> sid) (in_room s r))"

text \<open>
  \<open>socket.leave(r)\<close> and \<open>socket.join(r)\<close> on the set \<open>socket.rooms\<close>; with the
  in-memory adapter of socket.io both take effect before the next statement runs.
\<close>

definition socket_leave :: "socket_id \<Rightarrow> room_id \<Rightarrow> state \<Rightarrow> state" where
  "socket_leave sid r s =
     s\<lparr>adapter := AList.update sid (removeAll r (socket_rooms s sid)) (adapter s)\<rparr>"

definition socket_join :: "socket_id \<Rightarrow> room_id \<Rightarrow> state \<Rightarrow> state" where
  "socket_join sid r s =
     s\<lparr>adapter := AList.update sid
        (if r \<in> set (socket_rooms s sid) then socket_rooms s sid else socket_rooms s sid @ [r])
        (adapter s)\<rparr>"

text \<open>
  What socket.io does to a closing socket before it fires \<open>disconnect\<close>: the socket
  leaves all its rooms and is no longer connected.
\<close>

definition socket_close :: "socket_id \<Rightarrow> state \<Rightarrow> state" where
  "socket_close sid s = s\<lparr>adapter := AList.delete sid (adapter s)\<rparr>"

text \<open>
  \<open>socketToRoomMap.get(socket.id) || Array.from(socket.rooms)[1]\<close>, the room lookup of
  the \<open>peer-id\<close>, \<open>code-change\<close> and \<open>chat-message\<close> handlers.
\<close>

definition second_room :: "state \<Rightarrow> socket_id \<Rightarrow> room_id option" where
  "second_room s sid = (case socket_rooms s sid of a # b # rest \<Rightarrow> Some b | _ \<Rightarrow> None)"

definition room_of_socket :: "state \<Rightarrow> socket_id \<Rightarrow> room_id option" where
  "room_of_socket s sid =
     (if truthy (map_of (socketToRoomMap s) sid) then map_of (socketToRoomMap s) sid
      else second_room s sid)"

text \<open>The guard \<open>roomId && rooms.has(roomId)\<close>, giving the room when it holds.\<close>

definition guarded_room :: "state \<Rightarrow> room_id option \<Rightarrow> (room_id \<times> room) option" where
  "guarded_room s roomId =
     (case roomId of
        None \<Rightarrow> None
      | Some rid \<Rightarrow>
          if rid = [] then None
          else (case map_of (rooms s) rid of None \<Rightarrow> None | Some r \<Rightarrow> Some (rid, r)))"

subsection \<open>The member lists\<close>

definition entry_of :: "user \<Rightarrow> user_entry" where
  "entry_of u = \<lparr>id_entry = id_user u, username_entry = username u, peerId_entry = peerId u\<rparr>"

text \<open>The list of the \<open>joinRoom\<close> handler: first of each lower-cased name.\<close>

definition userList_join :: "(string \<Rightarrow> string) \<Rightarrow> room \<Rightarrow> user_entry list" where
  "userList_join toLowerCase r =
     map entry_of (filter_first (\<lambda>u. toLowerCase (username u)) (map snd (users r)))"

text \<open>The list of the \<open>disconnect\<close> handler: first of each name, compared as it is.\<close>

definition userList_disconnect :: "room \<Rightarrow> user_entry list" where
  "userList_disconnect r = map entry_of (filter_first username (map snd (users r)))"

text \<open>The list of the \<open>peer-id\<close> and \<open>requestUserList\<close> handlers: no filter.\<close>

definition userList_all :: "room \<Rightarrow> user_entry list" where
  "userList_all r = map entry_of (map snd (users r))"

subsection \<open>The handlers\<close>

text \<open>
  Each handler takes the state and the id of the socket it is registered on, and
  returns the new state with the deliveries it causes, in the order of the source.
\<close>

text \<open>What socket.io does for a new socket: it is in the room of its own id.\<close>

definition socket_open :: "socket_id \<Rightarrow> state \<Rightarrow> state" where
  "socket_open sid s = s\<lparr>adapter := AList.update sid [sid] (adapter s)\<rparr>"

text \<open>
  \<open>io.on('connection', ...)\<close>, lines 59 to 78. \<open>clientId\<close> and \<open>roomIdFromQuery\<close>
  are the query parameters of the handshake, \<open>None\<close> when absent.
\<close>

definition on_connection ::
  "state \<Rightarrow> socket_id \<Rightarrow> string option \<Rightarrow> string option \<Rightarrow> state \<times> delivery list" where
  "on_connection s sid clientId roomIdFromQuery =
     (let out = socket_emit sid (Connection_established sid ''Connected to server'');
          s1 = (if truthy clientId
                then (let s' = s\<lparr>socketToClientMap :=
                                   AList.update sid (case clientId of Some c \<Rightarrow> c | None \<Rightarrow> [])
                                     (socketToClientMap s)\<rparr>
                      in if truthy roomIdFromQuery
                         then s'\<lparr>socketToRoomMap :=
                                   AList.update sid (case roomIdFromQuery of Some r \<Rightarrow> r | None \<Rightarrow> [])
                                     (socketToRoomMap s')\<rparr>
                         else s')
                else s)
      in (s1, out))"

text \<open>
  The scan of \<open>joinRoom\<close>, lines 100 to 105: some user of the room has the name, lower
  case compared, and another \<open>id\<close>.
\<close>

definition usernameTaken :: "(string \<Rightarrow> string) \<Rightarrow> socket_id \<Rightarrow> string \<Rightarrow> room \<Rightarrow> bool" where
  "usernameTaken toLowerCase sid uname r =
     list_ex (\<lambda>u. toLowerCase (username u) = toLowerCase uname \<and> id_user u \<noteq> sid)
       (map snd (users r))"

definition rejected_message :: "string \<Rightarrow> string" where
  "rejected_message uname =
     ''Username '' @ [CHR 0x22] @ uname @ [CHR 0x22] @
     '' is already taken in this room. Please choose a different username.''"

definition joined_message :: "string \<Rightarrow> room_id \<Rightarrow> string" where
  "joined_message uname roomId = ''You ('' @ uname @ '') have joined room '' @ roomId"

text \<open>
  Lines 128 to 178 of \<open>joinRoom\<close>, after the room is known to be in \<open>rooms\<close>
  (\<open>rooms.get(roomId)\<close> is defined there, the \<open>None\<close> case cannot happen).
\<close>

definition joinRoom_admit ::
  "(string \<Rightarrow> string) \<Rightarrow> state \<Rightarrow> socket_id \<Rightarrow> string \<Rightarrow> room_id \<Rightarrow> state \<times> delivery list" where
  "joinRoom_admit toLowerCase s sid uname roomId =
     (case map_of (rooms s) roomId of
        None \<Rightarrow> (s, [])
      | Some r \<Rightarrow>
          (let s2 = socket_join sid roomId s;
               s3 = s2\<lparr>socketToRoomMap := AList.update sid roomId (socketToRoomMap s2)\<rparr>;
               r' = r\<lparr>users := AList.update sid
                       \<lparr>id_user = sid, username = uname, peerId = None, sockets = [sid]\<rparr>
                       (users r)\<rparr>;
               s4 = s3\<lparr>rooms := AList.update roomId r' (rooms s3)\<rparr>
           in (s4,
               socket_emit sid (Code_change (code r')) @
               io_to_emit s4 roomId (UserList (userList_join toLowerCase r')) @
               socket_to_emit s4 sid roomId (UserJoined uname) @
               socket_emit sid (JoinedRoom roomId (length (users r')) (joined_message uname roomId)))))"

text \<open>\<open>socket.on('joinRoom', ...)\<close>, lines 80 to 179.\<close>

definition on_joinRoom ::
  "(string \<Rightarrow> string) \<Rightarrow> state \<Rightarrow> socket_id \<Rightarrow> string \<Rightarrow> room_id \<Rightarrow> state \<times> delivery list" where
  "on_joinRoom toLowerCase s sid uname roomId =
     (let previousRooms = filter (\<lambda>r. r \<noteq> sid) (socket_rooms s sid);
          s1 = fold (socket_leave sid) previousRooms s
      in case map_of (rooms s1) roomId of
           Some r \<Rightarrow>
             if usernameTaken toLowerCase sid uname r
             then (s1, socket_emit sid (JoinRejected ''username_taken'' (rejected_message uname)))
             else joinRoom_admit toLowerCase s1 sid uname roomId
         | None \<Rightarrow>
             joinRoom_admit toLowerCase
               (s1\<lparr>rooms := AList.update roomId \<lparr>users = [], code = []\<rparr> (rooms s1)\<rparr>)
               sid uname roomId)"

text \<open>\<open>socket.on('peer-id', ...)\<close>, lines 181 to 201.\<close>

definition on_peer_id :: "state \<Rightarrow> socket_id \<Rightarrow> string \<Rightarrow> state \<times> delivery list" where
  "on_peer_id s sid pid =
     (case guarded_room s (room_of_socket s sid) of
        None \<Rightarrow> (s, [])
      | Some (roomId, r) \<Rightarrow>
          (case map_of (users r) sid of
             None \<Rightarrow> (s, [])
           | Some u \<Rightarrow>
               (let r' = r\<lparr>users := AList.update sid (u\<lparr>peerId := Some pid\<rparr>) (users r)\<rparr>;
                    s' = s\<lparr>rooms := AList.update roomId r' (rooms s)\<rparr>
                in (s', io_to_emit s' roomId (UserList (userList_all r'))))))"

text \<open>\<open>socket.on('code-change', ...)\<close>, lines 203 to 215.\<close>

definition on_code_change :: "state \<Rightarrow> socket_id \<Rightarrow> string \<Rightarrow> state \<times> delivery list" where
  "on_code_change s sid c =
     (case guarded_room s (room_of_socket s sid) of
        None \<Rightarrow> (s, [])
      | Some (roomId, r) \<Rightarrow>
          (let s' = s\<lparr>rooms := AList.update roomId (r\<lparr>code := c\<rparr>) (rooms s)\<rparr>
           in (s', socket_to_emit s' sid roomId (Code_change c))))"

text \<open>
  \<open>socket.on('chat-message', ...)\<close>, lines 217 to 242. \<open>now\<close> is the value of
  \<open>new Date().toISOString()\<close> at the event.
\<close>

definition messageToSend :: "chat_message \<Rightarrow> user \<Rightarrow> socket_id \<Rightarrow> string \<Rightarrow> chat_message" where
  "messageToSend message u sid now =
     message\<lparr>username_msg := Some (username u), sender := sid,
             timestamp := (if timestamp message \<noteq> [] then timestamp message else now)\<rparr>"

definition on_chat_message ::
  "state \<Rightarrow> socket_id \<Rightarrow> chat_message \<Rightarrow> string \<Rightarrow> state \<times> delivery list" where
  "on_chat_message s sid message now =
     (case guarded_room s (room_of_socket s sid) of
        None \<Rightarrow> (s, [])
      | Some (roomId, r) \<Rightarrow>
          (case map_of (users r) sid of
             None \<Rightarrow> (s, [])
           | Some u \<Rightarrow> (s, socket_to_emit s sid roomId (Chat_message (messageToSend message u sid now)))))"

text \<open>
  The \<open>forEach\<close> of the \<open>disconnect\<close> handler, lines 256 to 269, over the users in map
  order: it splices the socket out of every user that has it, remembers the last such
  user with its key, and sets \<open>removeCompletely\<close> when one of them has no socket left.
  The result is the map with the spliced users, \<open>userToRemove\<close> and \<open>removeCompletely\<close>.
\<close>

fun forEach_sockets ::
  "socket_id \<Rightarrow> (socket_id \<times> user) list \<Rightarrow> (user \<times> socket_id) option \<Rightarrow> bool \<Rightarrow>
   (socket_id \<times> user) list \<times> (user \<times> socket_id) option \<times> bool" where
  "forEach_sockets sid [] userToRemove removeCompletely = ([], userToRemove, removeCompletely)"
| "forEach_sockets sid ((k, u) # rest) userToRemove removeCompletely =
     (let socketIndex = indexOf (sockets u) sid
      in if socketIndex \<noteq> - 1
         then (let u' = u\<lparr>sockets := splice1 socketIndex (sockets u)\<rparr>;
                   (rest', utr, rc) =
                     forEach_sockets sid rest (Some (u', k))
                       (if length (sockets u') = 0 then True else removeCompletely)
               in ((k, u') # rest', utr, rc))
         else (let (rest', utr, rc) = forEach_sockets sid rest userToRemove removeCompletely
               in ((k, u) # rest', utr, rc)))"

text \<open>
  \<open>socket.on('disconnect', ...)\<close>, lines 244 to 314. socket.io has closed the socket
  (\<open>socket_close\<close>) before the handler runs.
\<close>

definition on_disconnect :: "state \<Rightarrow> socket_id \<Rightarrow> state \<times> delivery list" where
  "on_disconnect s sid =
     (let (s3, out) =
        (case guarded_room s (map_of (socketToRoomMap s) sid) of
           None \<Rightarrow> (s, [])
         | Some (roomId, r) \<Rightarrow>
             (let (users1, userToRemove, removeCompletely) =
                    forEach_sockets sid (users r) None False;
                  r1 = r\<lparr>users := users1\<rparr>;
                  s1 = s\<lparr>rooms := AList.update roomId r1 (rooms s)\<rparr>
              in case userToRemove of
                   None \<Rightarrow> (s1, [])
                 | Some (u, k) \<Rightarrow>
                     (let r2 = (if removeCompletely
                                then r1\<lparr>users := AList.delete k (users r1)\<rparr> else r1);
                          out1 = (if removeCompletely
                                  then io_to_emit s1 roomId (UserLeft (username u)) else []);
                          out2 = io_to_emit s1 roomId (UserList (userList_disconnect r2));
                          s2 = (if length (users r2) = 0
                                then s1\<lparr>rooms := AList.delete roomId (rooms s1)\<rparr>
                                else s1\<lparr>rooms := AList.update roomId r2 (rooms s1)\<rparr>)
                      in (s2, out1 @ out2))))
      in (s3\<lparr>socketToClientMap := AList.delete sid (socketToClientMap s3),
             socketToRoomMap := AList.delete sid (socketToRoomMap s3)\<rparr>, out))"

text \<open>\<open>socket.on('requestUserList', ...)\<close>, lines 317 to 346.\<close>

definition on_requestUserList :: "state \<Rightarrow> socket_id \<Rightarrow> room_id \<Rightarrow> state \<times> delivery list" where
  "on_requestUserList s sid roomId =
     (case guarded_room s (Some roomId) of
        Some (rid, r) \<Rightarrow>
          (s, socket_emit sid (UserList (userList_all r)) @
              io_to_emit s rid (UserList (userList_all r)))
      | None \<Rightarrow> (s, socket_emit sid (UserList [])))"

subsection \<open>Events and runs\<close>

datatype event =
    Ev_connection socket_id "string option" "string option"
  | Ev_joinRoom socket_id string room_id
  | Ev_peer_id socket_id string
  | Ev_code_change socket_id string
  | Ev_chat_message socket_id chat_message string
  | Ev_disconnect socket_id
  | Ev_requestUserList socket_id room_id

text \<open>
  A connection event brings a socket that is not connected; every other event comes
  from a connected socket.
\<close>

fun enabled :: "state \<Rightarrow> event \<Rightarrow> bool" where
  "enabled s (Ev_connection sid c r) = (\<not> connected s sid)"
| "enabled s (Ev_joinRoom sid uname roomId) = connected s sid"
| "enabled s (Ev_peer_id sid pid) = connected s sid"
| "enabled s (Ev_code_change sid c) = connected s sid"
| "enabled s (Ev_chat_message sid m now) = connected s sid"
| "enabled s (Ev_disconnect sid) = connected s sid"
| "enabled s (Ev_requestUserList sid roomId) = connected s sid"

fun step :: "(string \<Rightarrow> string) \<Rightarrow> state \<Rightarrow> event \<Rightarrow> state \<times> delivery list" where
  "step toLowerCase s (Ev_connection sid c r) = on_connection (socket_open sid s) sid c r"
| "step toLowerCase s (Ev_joinRoom sid uname roomId) = on_joinRoom toLowerCase s sid uname roomId"
| "step toLowerCase s (Ev_peer_id sid pid) = on_peer_id s sid pid"
| "step toLowerCase s (Ev_code_change sid c) = on_code_change s sid c"
| "step toLowerCase s (Ev_chat_message sid m now) = on_chat_message s sid m now"
| "step toLowerCase s (Ev_disconnect sid) = on_disconnect (socket_close sid s) sid"
| "step toLowerCase s (Ev_requestUserList sid roomId) = on_requestUserList s sid roomId"

text \<open>Events are handled one after the other, each to its end.\<close>

fun exec :: "(string \<Rightarrow> string) \<Rightarrow> state \<Rightarrow> event list \<Rightarrow> state option" where
  "exec toLowerCase s [] = Some s"
| "exec toLowerCase s (e # es) = (if enabled s e then exec toLowerCase (fst (step toLowerCase s e)) es else None)"

definition reachable :: "(string \<Rightarrow> string) \<Rightarrow> state \<Rightarrow> bool" where
  "reachable toLowerCase s = (\<exists>es. exec toLowerCase init es = Some s)"

subsection \<open>The member list as the specification words it\<close>



subsection \<open>Invariants of the rooms map\<close>

text \<open>
  The users of a room: the keys are distinct (it is a \<open>Map\<close>), every user is stored
  under its own \<open>id\<close> with exactly that one socket, and no two users have the same
  lower-cased name.
\<close>

definition users_ok :: "(string \<Rightarrow> string) \<Rightarrow> (socket_id \<times> user) list \<Rightarrow> bool" where
  "users_ok toLowerCase us =
     (distinct (map fst us) \<and>
      (\<forall>p\<in>set us. id_user (snd p) = fst p \<and> sockets (snd p) = [fst p]) \<and>
      distinct (map (\<lambda>p. toLowerCase (username (snd p))) us))"

definition room_ok :: "(string \<Rightarrow> string) \<Rightarrow> room \<Rightarrow> bool" where
  "room_ok toLowerCase r = (users r \<noteq> [] \<and> users_ok toLowerCase (users r))"

definition state_ok :: "(string \<Rightarrow> string) \<Rightarrow> state \<Rightarrow> bool" where
  "state_ok toLowerCase s = (\<forall>p\<in>set (rooms s). room_ok toLowerCase (snd p))"

subsection \<open>Runs from the initial state\<close>

text \<open>The state after a list of events, each handled in the state the previous one left.\<close>

definition run :: "(string \<Rightarrow> string) \<Rightarrow> event list \<Rightarrow> state" where
  "run toLowerCase es = fold (\<lambda>e s. fst (step toLowerCase s e)) es init"

text \<open>The deliveries of the event \<open>code-change\<close> among the deliveries of a handler.\<close>

fun is_Code_change :: "payload \<Rightarrow> bool" where
  "is_Code_change (Code_change c) = True"
| "is_Code_change p = False"



subsection \<open>Concrete runs\<close>


text \<open>
  Sockets \<open>a\<close> and \<open>b\<close> join room \<open>r1\<close> and socket \<open>c\<close> joins room \<open>r2\<close> as \<open>carol\<close>;
  then \<open>a\<close> asks for room \<open>r2\<close> as \<open>Carol\<close>.
\<close>

definition before_rejected_join :: "event list" where
  "before_rejected_join =
     [Ev_connection ''a'' None None, Ev_joinRoom ''a'' ''alice'' ''r1'',
      Ev_connection ''b'' None None, Ev_joinRoom ''b'' ''bob'' ''r1'',
      Ev_connection ''c'' None None, Ev_joinRoom ''c'' ''carol'' ''r2'']"

definition rejected_join_run :: "event list" where
  "rejected_join_run = before_rejected_join @ [Ev_joinRoom ''a'' ''Carol'' ''r2'']"

text \<open>Sockets \<open>a\<close> and \<open>b\<close> join the room whose key is the empty string.\<close>

definition empty_key_run :: "event list" where
  "empty_key_run =
     [Ev_connection ''a'' None None, Ev_joinRoom ''a'' ''alice'' [],
      Ev_connection ''b'' None None, Ev_joinRoom ''b'' ''bob'' []]"

section \<open>Properties\<close>

subsection \<open>The list functions\<close>


lemma findIndex_from_none: "0 \<le> i \<Longrightarrow> (findIndex_from P xs i = - 1) = (\<forall>x\<in>set xs. \<not> P x)"
proof (induction xs arbitrary: i)
  case Nil
  then show ?case by simp
next
  case (Cons x xs)
  then show ?case by auto
qed








lemma indexOf_none: "(indexOf xs x = - 1) = (x \<notin> set xs)"
  using findIndex_from_none [of 0 "\<lambda>y. y = x" xs] by (auto simp: indexOf_def findIndex_def)

subsection \<open>The invariant holds in every reachable toLowerCase state\<close>

lemma set_update_subset: "set (AList.update k v al) \<subseteq> insert (k, v) (set al)"
  by (induction al) auto

lemma set_delete_subset: "set (AList.delete k al) \<subseteq> set al"
  by (auto simp: AList.delete_eq)

lemma rooms_socket_leave [simp]: "rooms (socket_leave sid r s) = rooms s"
  and socketToRoomMap_socket_leave [simp]: "socketToRoomMap (socket_leave sid r s) = socketToRoomMap s"
  and socketToClientMap_socket_leave [simp]: "socketToClientMap (socket_leave sid r s) = socketToClientMap s"
  by (simp_all add: socket_leave_def)

lemma fold_socket_leave [simp]:
  "rooms (fold (socket_leave sid) rs s) = rooms s"
  "socketToRoomMap (fold (socket_leave sid) rs s) = socketToRoomMap s"
  "socketToClientMap (fold (socket_leave sid) rs s) = socketToClientMap s"
  by (induction rs arbitrary: s) simp_all

lemma socket_join_fields [simp]:
  "rooms (socket_join sid r s) = rooms s"
  "socketToRoomMap (socket_join sid r s) = socketToRoomMap s"
  "socketToClientMap (socket_join sid r s) = socketToClientMap s"
  by (simp_all add: socket_join_def)

lemma socket_close_fields [simp]:
  "rooms (socket_close sid s) = rooms s"
  "socketToRoomMap (socket_close sid s) = socketToRoomMap s"
  "socketToClientMap (socket_close sid s) = socketToClientMap s"
  by (simp_all add: socket_close_def)

lemma socket_open_fields [simp]:
  "rooms (socket_open sid s) = rooms s"
  "socketToRoomMap (socket_open sid s) = socketToRoomMap s"
  "socketToClientMap (socket_open sid s) = socketToClientMap s"
  by (simp_all add: socket_open_def)

lemma state_ok_update:
  "state_ok toLowerCase s \<Longrightarrow> room_ok toLowerCase r \<Longrightarrow> rooms s' = AList.update rid r (rooms s) \<Longrightarrow> state_ok toLowerCase s'"
  using set_update_subset [of rid r "rooms s"] by (auto simp: state_ok_def)

lemma state_ok_delete:
  "state_ok toLowerCase s \<Longrightarrow> rooms s' = AList.delete rid (rooms s) \<Longrightarrow> state_ok toLowerCase s'"
  using set_delete_subset [of rid "rooms s"] by (auto simp: state_ok_def)

lemma state_ok_lookup: "state_ok toLowerCase s \<Longrightarrow> map_of (rooms s) rid = Some r \<Longrightarrow> room_ok toLowerCase r"
  by (force simp: state_ok_def dest: map_of_SomeD)

lemma users_ok_update:
  assumes ok: "users_ok toLowerCase us"
    and nu: "id_user nu = sid" "sockets nu = [sid]"
    and other: "\<forall>p\<in>set us. fst p \<noteq> sid \<longrightarrow> toLowerCase (username (snd p)) \<noteq> toLowerCase (username nu)"
  shows "users_ok toLowerCase (AList.update sid nu us)"
proof -
  have d: "distinct (map fst (AList.update sid nu us))"
    using ok by (simp add: users_ok_def AList.distinct_update)
  have m: "\<forall>p\<in>set (AList.update sid nu us). id_user (snd p) = fst p \<and> sockets (snd p) = [fst p]"
    using ok nu set_update_subset [of sid nu us] by (auto simp: users_ok_def)
  have "distinct (map fst us) \<Longrightarrow> distinct (map (\<lambda>p. toLowerCase (username (snd p))) us) \<Longrightarrow>
        \<forall>p\<in>set us. fst p \<noteq> sid \<longrightarrow> toLowerCase (username (snd p)) \<noteq> toLowerCase (username nu) \<Longrightarrow>
        distinct (map (\<lambda>p. toLowerCase (username (snd p))) (AList.update sid nu us))"
  proof (induction us)
    case Nil
    then show ?case by simp
  next
    case (Cons p us)
    show ?case
    proof (cases "fst p = sid")
      case True
      have "toLowerCase (username (snd q)) \<noteq> toLowerCase (username nu)" if "q \<in> set us" for q
      proof -
        from that Cons.prems(1) True have "fst q \<noteq> sid" by (auto simp: image_iff)
        with that Cons.prems(3) show ?thesis by simp
      qed
      then have "toLowerCase (username nu) \<notin> (\<lambda>p. toLowerCase (username (snd p))) ` set us"
        by (metis (mono_tags, lifting) image_iff)
      moreover have "AList.update sid nu (p # us) = (sid, nu) # us"
        using True by simp
      ultimately show ?thesis using Cons.prems(2) by simp
    next
      case False
      have "set (AList.update sid nu us) \<subseteq> insert (sid, nu) (set us)"
        by (rule set_update_subset)
      with False Cons show ?thesis by (auto simp: image_iff)
    qed
  qed
  with ok other have "distinct (map (\<lambda>p. toLowerCase (username (snd p))) (AList.update sid nu us))"
    by (simp add: users_ok_def)
  with d m show ?thesis by (simp add: users_ok_def)
qed

lemma users_ok_delete: "users_ok toLowerCase us \<Longrightarrow> users_ok toLowerCase (AList.delete k us)"
  by (auto simp: users_ok_def AList.delete_eq distinct_map_filter)

lemma not_usernameTaken:
  "\<not> usernameTaken toLowerCase sid uname r \<Longrightarrow> users_ok toLowerCase (users r) \<Longrightarrow>
   \<forall>p\<in>set (users r). fst p \<noteq> sid \<longrightarrow> toLowerCase (username (snd p)) \<noteq> toLowerCase uname"
  by (auto simp: usernameTaken_def list_ex_iff users_ok_def)

lemma guarded_roomD:
  "guarded_room s x = Some (rid, r) \<Longrightarrow> x = Some rid \<and> rid \<noteq> [] \<and> map_of (rooms s) rid = Some r"
  by (auto simp: guarded_room_def split: option.splits if_splits)

lemma rooms_on_connection [simp]: "rooms (fst (on_connection s sid c r)) = rooms s"
  by (simp add: on_connection_def Let_def)

lemma rooms_joinRoom_admit:
  "map_of (rooms s) roomId = Some r \<Longrightarrow>
   rooms (fst (joinRoom_admit toLowerCase s sid uname roomId)) =
     AList.update roomId
       (r\<lparr>users := AList.update sid
           \<lparr>id_user = sid, username = uname, peerId = None, sockets = [sid]\<rparr> (users r)\<rparr>)
       (rooms s)"
  by (simp add: joinRoom_admit_def Let_def)

lemma rooms_on_joinRoom:
  "rooms (fst (on_joinRoom toLowerCase s sid uname roomId)) =
     (case map_of (rooms s) roomId of
        Some r \<Rightarrow>
          if usernameTaken toLowerCase sid uname r then rooms s
          else AList.update roomId
                 (r\<lparr>users := AList.update sid
                     \<lparr>id_user = sid, username = uname, peerId = None, sockets = [sid]\<rparr>
                     (users r)\<rparr>)
                 (rooms s)
      | None \<Rightarrow>
          AList.update roomId
            \<lparr>users = [(sid, \<lparr>id_user = sid, username = uname, peerId = None, sockets = [sid]\<rparr>)],
             code = []\<rparr>
            (rooms s))"
  by (simp add: on_joinRoom_def Let_def rooms_joinRoom_admit AList.update_conv'
      split: option.splits)

lemma state_ok_on_joinRoom:
  assumes "state_ok toLowerCase s"
  shows "state_ok toLowerCase (fst (on_joinRoom toLowerCase s sid uname roomId))"
proof (cases "map_of (rooms s) roomId")
  case None
  have "room_ok toLowerCase \<lparr>users = [(sid, \<lparr>id_user = sid, username = uname, peerId = None, sockets = [sid]\<rparr>)],
             code = []\<rparr>"
    by (simp add: room_ok_def users_ok_def)
  with assms None show ?thesis
    by (auto intro: state_ok_update simp: rooms_on_joinRoom)
next
  case (Some r)
  show ?thesis
  proof (cases "usernameTaken toLowerCase sid uname r")
    case True
    with Some assms show ?thesis
      by (simp add: rooms_on_joinRoom state_ok_def)
  next
    case False
    from assms Some have ok: "users_ok toLowerCase (users r)"
      by (auto dest: state_ok_lookup simp: room_ok_def)
    let ?nu = "\<lparr>id_user = sid, username = uname, peerId = None, sockets = [sid]\<rparr>"
    have "users_ok toLowerCase (AList.update sid ?nu (users r))"
      using not_usernameTaken [OF False ok] by (intro users_ok_update [OF ok]) simp_all
    then have "room_ok toLowerCase (r\<lparr>users := AList.update sid ?nu (users r)\<rparr>)"
      by (simp add: room_ok_def)
    with assms Some False show ?thesis
      by (auto intro: state_ok_update simp: rooms_on_joinRoom)
  qed
qed

lemma users_ok_same_name:
  assumes ok: "users_ok toLowerCase us" and u: "map_of us sid = Some u"
    and nu: "id_user nu = id_user u" "sockets nu = sockets u" "username nu = username u"
  shows "users_ok toLowerCase (AList.update sid nu us)"
proof -
  from u have mem: "(sid, u) \<in> set us" by (rule map_of_SomeD)
  from ok have inj: "inj_on (\<lambda>p. toLowerCase (username (snd p))) (set us)"
    by (simp add: users_ok_def distinct_map)
  have "toLowerCase (username (snd p)) \<noteq> toLowerCase (username nu)"
    if "p \<in> set us" "fst p \<noteq> sid" for p
  proof
    assume "toLowerCase (username (snd p)) = toLowerCase (username nu)"
    with nu have "(\<lambda>p. toLowerCase (username (snd p))) p = (\<lambda>p. toLowerCase (username (snd p))) (sid, u)" by simp
    from inj_onD [OF inj this that(1) mem] have "p = (sid, u)" .
    with that(2) show False by simp
  qed
  moreover from ok mem nu have "id_user nu = sid" "sockets nu = [sid]"
    by (auto simp: users_ok_def)
  ultimately show ?thesis by (intro users_ok_update [OF ok]) auto
qed

lemma state_ok_on_peer_id:
  assumes "state_ok toLowerCase s"
  shows "state_ok toLowerCase (fst (on_peer_id s sid pid))"
proof (cases "guarded_room s (room_of_socket s sid)")
  case None
  with assms show ?thesis by (simp add: on_peer_id_def)
next
  case (Some p)
  obtain rid r where p: "p = (rid, r)" by (cases p)
  with Some have r: "map_of (rooms s) rid = Some r" by (auto dest: guarded_roomD)
  with assms have ok: "room_ok toLowerCase r" by (rule state_ok_lookup)
  show ?thesis
  proof (cases "map_of (users r) sid")
    case None
    with Some p assms show ?thesis by (simp add: on_peer_id_def)
  next
    case u: (Some u)
    have "users_ok toLowerCase (AList.update sid (u\<lparr>peerId := Some pid\<rparr>) (users r))"
      using ok u by (intro users_ok_same_name) (simp_all add: room_ok_def)
    then have "room_ok toLowerCase (r\<lparr>users := AList.update sid (u\<lparr>peerId := Some pid\<rparr>) (users r)\<rparr>)"
      by (simp add: room_ok_def)
    with assms Some p u show ?thesis
      by (auto intro: state_ok_update simp: on_peer_id_def Let_def)
  qed
qed

lemma state_ok_on_code_change:
  assumes "state_ok toLowerCase s"
  shows "state_ok toLowerCase (fst (on_code_change s sid c))"
proof (cases "guarded_room s (room_of_socket s sid)")
  case None
  with assms show ?thesis by (simp add: on_code_change_def)
next
  case (Some p)
  obtain rid r where p: "p = (rid, r)" by (cases p)
  with Some have r: "map_of (rooms s) rid = Some r" by (auto dest: guarded_roomD)
  with assms have "room_ok toLowerCase r" by (rule state_ok_lookup)
  then have "room_ok toLowerCase (r\<lparr>code := c\<rparr>)" by (simp add: room_ok_def)
  with assms Some p show ?thesis
    by (auto intro: state_ok_update simp: on_code_change_def Let_def)
qed

lemma state_on_chat_message [simp]: "fst (on_chat_message s sid m now) = s"
  by (simp add: on_chat_message_def split: option.splits prod.splits)

lemma state_on_requestUserList [simp]: "fst (on_requestUserList s sid roomId) = s"
  by (simp add: on_requestUserList_def split: option.splits prod.splits)

lemma indexOf_single: "(indexOf [k] sid = - 1) = (k \<noteq> sid)"
  by (auto simp: indexOf_none)

lemma forEach_sockets_absent:
  "\<forall>p\<in>set us. sid \<notin> set (sockets (snd p)) \<Longrightarrow>
   forEach_sockets sid us utr rc = (us, utr, rc)"
  by (induction us arbitrary: utr rc) (auto simp: indexOf_none)

lemma forEach_sockets_ok:
  assumes "\<forall>p\<in>set us. sockets (snd p) = [fst p]" and "distinct (map fst us)"
  shows "map_of us sid = None \<Longrightarrow> forEach_sockets sid us utr rc = (us, utr, rc)"
    and "map_of us sid = Some u \<Longrightarrow>
         \<exists>us1. forEach_sockets sid us utr rc = (us1, Some (u\<lparr>sockets := []\<rparr>, sid), True) \<and>
               AList.delete sid us1 = AList.delete sid us"
proof -
  show "forEach_sockets sid us utr rc = (us, utr, rc)" if "map_of us sid = None"
  proof (rule forEach_sockets_absent)
    from that have "sid \<notin> fst ` set us" by (simp add: map_of_eq_None_iff)
    with assms(1) show "\<forall>p\<in>set us. sid \<notin> set (sockets (snd p))" by auto
  qed
  show "\<exists>us1. forEach_sockets sid us utr rc = (us1, Some (u\<lparr>sockets := []\<rparr>, sid), True) \<and>
               AList.delete sid us1 = AList.delete sid us" if "map_of us sid = Some u"
    using assms that
  proof (induction us arbitrary: utr rc)
    case Nil
    then show ?case by simp
  next
    case (Cons p us)
    obtain k v where p: "p = (k, v)" by (cases p)
    with Cons.prems have v: "sockets v = [k]" by simp
    show ?case
    proof (cases "k = sid")
      case True
      with Cons.prems p have u: "v = u" by simp
      from Cons.prems p True have "\<forall>q\<in>set us. sid \<notin> set (sockets (snd q))" by auto
      from forEach_sockets_absent [OF this]
      have "forEach_sockets sid us (Some (u\<lparr>sockets := []\<rparr>, sid)) True =
              (us, Some (u\<lparr>sockets := []\<rparr>, sid), True)" .
      with True p u v show ?thesis
        by (simp add: indexOf_def findIndex_def splice1_def Let_def)
    next
      case False
      with Cons.prems p have "map_of us sid = Some u" by simp
      with Cons.IH [of utr rc] Cons.prems obtain us1 where
        "forEach_sockets sid us utr rc = (us1, Some (u\<lparr>sockets := []\<rparr>, sid), True)"
        "AList.delete sid us1 = AList.delete sid us" by auto
      with False p v show ?thesis by (simp add: indexOf_single)
    qed
  qed
qed

lemma in_room_rooms_update [simp]: "in_room (s\<lparr>rooms := x\<rparr>) r = in_room s r"
  by (simp add: in_room_def)

lemma io_to_emit_rooms_update [simp]: "io_to_emit (s\<lparr>rooms := x\<rparr>) r p = io_to_emit s r p"
  by (simp add: io_to_emit_def)

lemma socket_to_emit_rooms_update [simp]:
  "socket_to_emit (s\<lparr>rooms := x\<rparr>) sid r p = socket_to_emit s sid r p"
  by (simp add: socket_to_emit_def)

lemma on_disconnect_no_room:
  "guarded_room s (map_of (socketToRoomMap s) sid) = None \<Longrightarrow>
   on_disconnect s sid =
     (s\<lparr>socketToClientMap := AList.delete sid (socketToClientMap s),
        socketToRoomMap := AList.delete sid (socketToRoomMap s)\<rparr>, [])"
  by (simp add: on_disconnect_def)

lemma on_disconnect_absent:
  assumes "guarded_room s (map_of (socketToRoomMap s) sid) = Some (rid, r)"
    and "users_ok toLowerCase (users r)" and "map_of (users r) sid = None"
  shows "on_disconnect s sid =
     (s\<lparr>socketToClientMap := AList.delete sid (socketToClientMap s),
        socketToRoomMap := AList.delete sid (socketToRoomMap s)\<rparr>, [])"
proof -
  from assms(2) have a: "\<forall>p\<in>set (users r). sockets (snd p) = [fst p]" "distinct (map fst (users r))"
    by (simp_all add: users_ok_def)
  from assms(1) have "map_of (rooms s) rid = Some r" by (auto dest: guarded_roomD)
  then have "AList.update rid r (rooms s) = rooms s" by (rule AList.update_triv)
  with assms(1) forEach_sockets_ok(1) [OF a assms(3), of None False] show ?thesis
    by (simp add: on_disconnect_def)
qed

lemma on_disconnect_present:
  assumes "guarded_room s (map_of (socketToRoomMap s) sid) = Some (rid, r)"
    and "users_ok toLowerCase (users r)" and "map_of (users r) sid = Some u"
  shows "on_disconnect s sid =
     (s\<lparr>rooms := (if AList.delete sid (users r) = [] then AList.delete rid (rooms s)
                  else AList.update rid (r\<lparr>users := AList.delete sid (users r)\<rparr>) (rooms s)),
        socketToClientMap := AList.delete sid (socketToClientMap s),
        socketToRoomMap := AList.delete sid (socketToRoomMap s)\<rparr>,
      io_to_emit s rid (UserLeft (username u)) @
      io_to_emit s rid (UserList (userList_disconnect (r\<lparr>users := AList.delete sid (users r)\<rparr>))))"
proof -
  from assms(2) have a: "\<forall>p\<in>set (users r). sockets (snd p) = [fst p]" "distinct (map fst (users r))"
    by (simp_all add: users_ok_def)
  from forEach_sockets_ok(2) [OF a assms(3), of None False] obtain us1 where
    "forEach_sockets sid (users r) None False = (us1, Some (u\<lparr>sockets := []\<rparr>, sid), True)"
    "AList.delete sid us1 = AList.delete sid (users r)" by auto
  with assms(1) show ?thesis
    by (simp add: on_disconnect_def AList.delete_update_same Let_def)
qed

lemma state_ok_on_disconnect:
  assumes "state_ok toLowerCase s"
  shows "state_ok toLowerCase (fst (on_disconnect s sid))"
proof (cases "guarded_room s (map_of (socketToRoomMap s) sid)")
  case None
  with assms show ?thesis by (simp add: on_disconnect_no_room state_ok_def)
next
  case (Some p)
  obtain rid r where p: "p = (rid, r)" by (cases p)
  with Some have g: "guarded_room s (map_of (socketToRoomMap s) sid) = Some (rid, r)" by simp
  then have r: "map_of (rooms s) rid = Some r" by (auto dest: guarded_roomD)
  with assms have "room_ok toLowerCase r" by (rule state_ok_lookup)
  then have ok: "users_ok toLowerCase (users r)" by (simp add: room_ok_def)
  show ?thesis
  proof (cases "map_of (users r) sid")
    case None
    from on_disconnect_absent [OF g ok None] assms show ?thesis by (simp add: state_ok_def)
  next
    case u: (Some u)
    show ?thesis
    proof (cases "AList.delete sid (users r) = []")
      case True
      with on_disconnect_present [OF g ok u] assms show ?thesis
        by (auto intro: state_ok_delete)
    next
      case False
      with ok have "room_ok toLowerCase (r\<lparr>users := AList.delete sid (users r)\<rparr>)"
        by (simp add: room_ok_def users_ok_delete)
      with False on_disconnect_present [OF g ok u] assms show ?thesis
        by (auto intro: state_ok_update)
    qed
  qed
qed

lemma state_ok_step: "state_ok toLowerCase s \<Longrightarrow> state_ok toLowerCase (fst (step toLowerCase s e))"
proof (cases e)
  case (Ev_connection sid c r)
  then show "state_ok toLowerCase s \<Longrightarrow> ?thesis" by (simp add: state_ok_def)
next
  case (Ev_disconnect sid)
  assume "state_ok toLowerCase s"
  then have "state_ok toLowerCase (socket_close sid s)" by (simp add: state_ok_def)
  with Ev_disconnect show ?thesis by (simp add: state_ok_on_disconnect)
qed (simp_all add: state_ok_on_joinRoom state_ok_on_peer_id state_ok_on_code_change)

lemma state_ok_exec: "exec toLowerCase s es = Some s' \<Longrightarrow> state_ok toLowerCase s \<Longrightarrow> state_ok toLowerCase s'"
  by (induction es arbitrary: s) (auto split: if_splits intro: state_ok_step)

lemma state_ok_init: "state_ok toLowerCase init"
  by (simp add: state_ok_def init_def)

lemma reachable_state_ok: "reachable toLowerCase s \<Longrightarrow> state_ok toLowerCase s"
  by (auto simp: reachable_def intro: state_ok_exec state_ok_init)

subsection \<open>Claims about the reachable toLowerCase states\<close>

text \<open>
  C3: in every reachable state of the service, a room key that is present in the
  \<open>rooms\<close> map has a non-empty member map. The room is created by a join that adds its
  first member at once, and the disconnect cleanup deletes it when its last member is
  removed.
\<close>

theorem rooms_never_empty:
  "reachable toLowerCase s \<Longrightarrow> map_of (rooms s) k = Some r \<Longrightarrow> users r \<noteq> []"
  using reachable_state_ok state_ok_lookup room_ok_def by blast

theorem rooms_never_empty_witness:
  "reachable ascii_lower (run ascii_lower [Ev_connection ''a'' None None, Ev_joinRoom ''a'' ''alice'' ''r1'',
                   Ev_connection ''b'' None None, Ev_joinRoom ''b'' ''bob'' ''r1'',
                   Ev_disconnect ''a'']) \<and>
   map_of (rooms (run ascii_lower [Ev_connection ''a'' None None, Ev_joinRoom ''a'' ''alice'' ''r1'',
                   Ev_connection ''b'' None None, Ev_joinRoom ''b'' ''bob'' ''r1'',
                   Ev_disconnect ''a''])) ''r1'' =
     Some \<lparr>users = [(''b'', \<lparr>id_user = ''b'', username = ''bob'', peerId = None,
                              sockets = [''b'']\<rparr>)], code = []\<rparr> \<and>
   users \<lparr>users = [(''b'', \<lparr>id_user = ''b'', username = ''bob'', peerId = None,
                              sockets = [''b'']\<rparr>)], code = []\<rparr> \<noteq> []"
proof -
  let ?es = "[Ev_connection ''a'' None None, Ev_joinRoom ''a'' ''alice'' ''r1'',
              Ev_connection ''b'' None None, Ev_joinRoom ''b'' ''bob'' ''r1'',
              Ev_disconnect ''a'']"
  have "exec ascii_lower init ?es = Some (run ascii_lower ?es)" by code_simp
  then have r: "reachable ascii_lower (run ascii_lower ?es)" unfolding reachable_def by blast
  have m: "map_of (rooms (run ascii_lower ?es)) ''r1'' =
     Some \<lparr>users = [(''b'', \<lparr>id_user = ''b'', username = ''bob'', peerId = None,
                              sockets = [''b'']\<rparr>)], code = []\<rparr>" by code_simp
  from rooms_never_empty [OF r m] r m show ?thesis by simp
qed

text \<open>
  C10: in every reachable state, every user record stored in a room's member map has
  as its sockets exactly the one-element list of its own map key (which is also its
  \<open>id\<close>). So the scan of the disconnect handler, whenever it finds a user to remove,
  also sets \<open>removeCompletely\<close>: the branch that keeps a user with remaining sockets is
  never taken.
\<close>

theorem one_socket_per_record:
  assumes "reachable toLowerCase s" and "map_of (rooms s) rid = Some r"
  shows "(\<forall>p\<in>set (users r). sockets (snd p) = [fst p] \<and> id_user (snd p) = fst p) \<and>
         (\<forall>sid us1 u removeCompletely.
            forEach_sockets sid (users r) None False = (us1, Some u, removeCompletely) \<longrightarrow>
            removeCompletely)"
proof -
  from assms have "room_ok toLowerCase r" by (auto dest: reachable_state_ok state_ok_lookup)
  then have ok: "users_ok toLowerCase (users r)" by (simp add: room_ok_def)
  then have a: "\<forall>p\<in>set (users r). sockets (snd p) = [fst p]" "distinct (map fst (users r))"
    by (simp_all add: users_ok_def)
  have "removeCompletely"
    if "forEach_sockets sid (users r) None False = (us1, Some u, removeCompletely)"
    for sid us1 u removeCompletely
  proof (cases "map_of (users r) sid")
    case None
    from forEach_sockets_ok(1) [OF a None, of None False] that show ?thesis by simp
  next
    case (Some v)
    from forEach_sockets_ok(2) [OF a Some, of None False] that show ?thesis by auto
  qed
  with ok show ?thesis by (auto simp: users_ok_def)
qed

theorem one_socket_per_record_witness:
  "reachable ascii_lower (run ascii_lower [Ev_connection ''a'' None None, Ev_joinRoom ''a'' ''alice'' ''r1'']) \<and>
   map_of (rooms (run ascii_lower [Ev_connection ''a'' None None, Ev_joinRoom ''a'' ''alice'' ''r1''])) ''r1'' =
     Some \<lparr>users = [(''a'', \<lparr>id_user = ''a'', username = ''alice'', peerId = None,
                              sockets = [''a'']\<rparr>)], code = []\<rparr> \<and>
   sockets \<lparr>id_user = ''a'', username = ''alice'', peerId = None, sockets = [''a'']\<rparr> = [''a''] \<and>
   forEach_sockets ''a''
     [(''a'', \<lparr>id_user = ''a'', username = ''alice'', peerId = None, sockets = [''a'']\<rparr>)]
     None False =
     ([(''a'', \<lparr>id_user = ''a'', username = ''alice'', peerId = None, sockets = []\<rparr>)],
      Some (\<lparr>id_user = ''a'', username = ''alice'', peerId = None, sockets = []\<rparr>, ''a''), True)"
proof -
  let ?es = "[Ev_connection ''a'' None None, Ev_joinRoom ''a'' ''alice'' ''r1'']"
  have "exec ascii_lower init ?es = Some (run ascii_lower ?es)" by code_simp
  then have r: "reachable ascii_lower (run ascii_lower ?es)" unfolding reachable_def by blast
  have m: "map_of (rooms (run ascii_lower ?es)) ''r1'' =
     Some \<lparr>users = [(''a'', \<lparr>id_user = ''a'', username = ''alice'', peerId = None,
                              sockets = [''a'']\<rparr>)], code = []\<rparr>" by code_simp
  have f: "forEach_sockets ''a''
     [(''a'', \<lparr>id_user = ''a'', username = ''alice'', peerId = None, sockets = [''a'']\<rparr>)]
     None False =
     ([(''a'', \<lparr>id_user = ''a'', username = ''alice'', peerId = None, sockets = []\<rparr>)],
      Some (\<lparr>id_user = ''a'', username = ''alice'', peerId = None, sockets = []\<rparr>, ''a''), True)"
    by code_simp
  from one_socket_per_record [OF r m] r m f show ?thesis by simp
qed

subsection \<open>Claims about single handlers\<close>


lemma room_of_socket_rooms_update [simp]:
  "room_of_socket (s\<lparr>rooms := x\<rparr>) sid = room_of_socket s sid"
  by (simp add: room_of_socket_def second_room_def socket_rooms_def)

lemma guarded_room_Some:
  "rid \<noteq> [] \<Longrightarrow> map_of (rooms s) rid = Some r \<Longrightarrow> guarded_room s (Some rid) = Some (rid, r)"
  by (simp add: guarded_room_def)

lemma on_code_change_effect:
  assumes "room_of_socket s sid = Some roomId" and "roomId \<noteq> []"
    and "map_of (rooms s) roomId = Some r"
  shows "on_code_change s sid c =
           (s\<lparr>rooms := AList.update roomId (r\<lparr>code := c\<rparr>) (rooms s)\<rparr>,
            map (\<lambda>k. (k, Code_change c)) (filter (\<lambda>k. k \<noteq> sid) (in_room s roomId))) \<and>
         map_of (rooms (fst (on_code_change s sid c))) roomId = Some (r\<lparr>code := c\<rparr>) \<and>
         sid \<notin> fst ` set (snd (on_code_change s sid c)) \<and>
         (room_of_socket s sid' = Some roomId \<longrightarrow>
            map_of (rooms (fst (on_code_change (fst (on_code_change s sid c)) sid' c'))) roomId =
              Some (r\<lparr>code := c'\<rparr>))"
proof -
  from assms have g: "guarded_room s (room_of_socket s sid) = Some (roomId, r)"
    by (simp add: guarded_room_Some)
  then have 1: "on_code_change s sid c =
           (s\<lparr>rooms := AList.update roomId (r\<lparr>code := c\<rparr>) (rooms s)\<rparr>,
            map (\<lambda>k. (k, Code_change c)) (filter (\<lambda>k. k \<noteq> sid) (in_room s roomId)))"
    by (simp add: on_code_change_def Let_def socket_to_emit_def)
  have 2: "map_of (rooms (fst (on_code_change s sid c))) roomId = Some (r\<lparr>code := c\<rparr>)"
    by (simp add: 1 AList.update_conv')
  have 3: "sid \<notin> fst ` set (snd (on_code_change s sid c))"
    by (auto simp: 1)
  have 4: "map_of (rooms (fst (on_code_change (fst (on_code_change s sid c)) sid' c'))) roomId =
              Some (r\<lparr>code := c'\<rparr>)" if "room_of_socket s sid' = Some roomId"
  proof -
    let ?s1 = "fst (on_code_change s sid c)"
    from that assms(2) 2
    have "guarded_room ?s1 (room_of_socket ?s1 sid') = Some (roomId, r\<lparr>code := c\<rparr>)"
      by (simp add: 1 guarded_room_def)
    then show ?thesis
      by (simp add: on_code_change_def Let_def AList.update_conv')
  qed
  from 1 2 3 4 show ?thesis by blast
qed

lemma filter_Code_change_io_to_emit [simp]:
  "\<not> is_Code_change p \<Longrightarrow> filter (\<lambda>d. is_Code_change (snd d)) (io_to_emit s r p) = []"
  by (simp add: io_to_emit_def filter_map o_def)

lemma filter_Code_change_socket_to_emit [simp]:
  "\<not> is_Code_change p \<Longrightarrow> filter (\<lambda>d. is_Code_change (snd d)) (socket_to_emit s sid r p) = []"
  by (simp add: socket_to_emit_def filter_map o_def)

lemma snd_joinRoom_admit:
  "map_of (rooms s) roomId = Some r \<Longrightarrow>
   filter (\<lambda>d. is_Code_change (snd d)) (snd (joinRoom_admit toLowerCase s sid uname roomId)) =
     [(sid, Code_change (code r))]"
  by (simp add: joinRoom_admit_def Let_def socket_emit_def)

text \<open>
  C7: a \<open>joinRoom\<close> request for a room that is not in \<open>rooms\<close> is admitted: afterwards
  the room is there with the empty buffer and the requesting socket as its only member,
  and the socket is told so with a member count of 1. For every join that is not
  rejected (the room is new, or no other user holds the name), the room's buffer is
  delivered as \<open>code-change\<close> to the joining socket and to nobody else.
\<close>

theorem joinRoom_admits_and_catches_up:
  "(map_of (rooms s) roomId = None \<longrightarrow>
      map_of (rooms (fst (on_joinRoom toLowerCase s sid uname roomId))) roomId =
        Some \<lparr>users = [(sid, \<lparr>id_user = sid, username = uname, peerId = None,
                               sockets = [sid]\<rparr>)], code = []\<rparr> \<and>
      (sid, JoinedRoom roomId 1 (joined_message uname roomId))
        \<in> set (snd (on_joinRoom toLowerCase s sid uname roomId))) \<and>
   ((\<forall>r. map_of (rooms s) roomId = Some r \<longrightarrow> \<not> usernameTaken toLowerCase sid uname r) \<longrightarrow>
      filter (\<lambda>d. is_Code_change (snd d)) (snd (on_joinRoom toLowerCase s sid uname roomId)) =
        [(sid, Code_change (case map_of (rooms s) roomId of None \<Rightarrow> [] | Some r \<Rightarrow> code r))])"
proof (intro conjI impI)
  assume n: "map_of (rooms s) roomId = None"
  then show "map_of (rooms (fst (on_joinRoom toLowerCase s sid uname roomId))) roomId =
        Some \<lparr>users = [(sid, \<lparr>id_user = sid, username = uname, peerId = None,
                               sockets = [sid]\<rparr>)], code = []\<rparr>"
    by (simp add: rooms_on_joinRoom AList.update_conv')
  from n show "(sid, JoinedRoom roomId 1 (joined_message uname roomId))
        \<in> set (snd (on_joinRoom toLowerCase s sid uname roomId))"
    by (simp add: on_joinRoom_def joinRoom_admit_def Let_def AList.update_conv' socket_emit_def)
next
  assume a: "\<forall>r. map_of (rooms s) roomId = Some r \<longrightarrow> \<not> usernameTaken toLowerCase sid uname r"
  show "filter (\<lambda>d. is_Code_change (snd d)) (snd (on_joinRoom toLowerCase s sid uname roomId)) =
        [(sid, Code_change (case map_of (rooms s) roomId of None \<Rightarrow> [] | Some r \<Rightarrow> code r))]"
  proof (cases "map_of (rooms s) roomId")
    case None
    then show ?thesis
      by (simp add: on_joinRoom_def Let_def snd_joinRoom_admit AList.update_conv')
  next
    case (Some r)
    with a show ?thesis
      by (simp add: on_joinRoom_def Let_def snd_joinRoom_admit)
  qed
qed

theorem joinRoom_admits_and_catches_up_witness:
  "map_of (rooms (run ascii_lower [Ev_connection ''a'' None None])) ''r1'' = None \<and>
   map_of (rooms (fst (on_joinRoom ascii_lower (run ascii_lower [Ev_connection ''a'' None None])
                        ''a'' ''bob'' ''r1''))) ''r1'' =
     Some \<lparr>users = [(''a'', \<lparr>id_user = ''a'', username = ''bob'', peerId = None,
                               sockets = [''a'']\<rparr>)], code = []\<rparr> \<and>
   (''a'', JoinedRoom ''r1'' 1 (joined_message ''bob'' ''r1''))
     \<in> set (snd (on_joinRoom ascii_lower (run ascii_lower [Ev_connection ''a'' None None])
                   ''a'' ''bob'' ''r1'')) \<and>
   map_of (rooms (run ascii_lower
     [Ev_connection ''a'' None None, Ev_joinRoom ''a'' ''bob'' ''r1'',
      Ev_code_change ''a'' ''x=1'', Ev_connection ''b'' None None])) ''r1'' =
     Some \<lparr>users = [(''a'', \<lparr>id_user = ''a'', username = ''bob'', peerId = None,
                               sockets = [''a'']\<rparr>)], code = ''x=1''\<rparr> \<and>
   \<not> usernameTaken ascii_lower ''b'' ''carol''
       \<lparr>users = [(''a'', \<lparr>id_user = ''a'', username = ''bob'', peerId = None,
                               sockets = [''a'']\<rparr>)], code = ''x=1''\<rparr> \<and>
   filter (\<lambda>d. is_Code_change (snd d))
     (snd (on_joinRoom ascii_lower
        (run ascii_lower
          [Ev_connection ''a'' None None, Ev_joinRoom ''a'' ''bob'' ''r1'',
           Ev_code_change ''a'' ''x=1'', Ev_connection ''b'' None None])
        ''b'' ''carol'' ''r1'')) =
     [(''b'', Code_change ''x=1'')]"
proof -
  let ?s1 = "run ascii_lower [Ev_connection ''a'' None None]"
  let ?s2 = "run ascii_lower
     [Ev_connection ''a'' None None, Ev_joinRoom ''a'' ''bob'' ''r1'',
      Ev_code_change ''a'' ''x=1'', Ev_connection ''b'' None None]"
  let ?r = "\<lparr>users = [(''a'', \<lparr>id_user = ''a'', username = ''bob'', peerId = None,
                               sockets = [''a'']\<rparr>)], code = ''x=1''\<rparr>"
  have n: "map_of (rooms ?s1) ''r1'' = None" by code_simp
  have m: "map_of (rooms ?s2) ''r1'' = Some ?r" by code_simp
  have nt: "\<not> usernameTaken ascii_lower ''b'' ''carol'' ?r" by code_simp
  from m nt
  have a: "\<forall>r. map_of (rooms ?s2) ''r1'' = Some r \<longrightarrow> \<not> usernameTaken ascii_lower ''b'' ''carol'' r"
    by simp
  note t1 = joinRoom_admits_and_catches_up [where toLowerCase = ascii_lower and s = ?s1
      and roomId = "''r1''" and sid = "''a''" and uname = "''bob''"]
  note t2 = joinRoom_admits_and_catches_up [where toLowerCase = ascii_lower and s = ?s2
      and roomId = "''r1''" and sid = "''b''" and uname = "''carol''"]
  from t1 n have 1: "map_of (rooms (fst (on_joinRoom ascii_lower ?s1 ''a'' ''bob'' ''r1''))) ''r1'' =
     Some \<lparr>users = [(''a'', \<lparr>id_user = ''a'', username = ''bob'', peerId = None,
                               sockets = [''a'']\<rparr>)], code = []\<rparr>"
    and 2: "(''a'', JoinedRoom ''r1'' 1 (joined_message ''bob'' ''r1''))
     \<in> set (snd (on_joinRoom ascii_lower ?s1 ''a'' ''bob'' ''r1''))"
    by blast+
  from t2 a have "filter (\<lambda>d. is_Code_change (snd d))
     (snd (on_joinRoom ascii_lower ?s2 ''b'' ''carol'' ''r1'')) =
     [(''b'', Code_change (case map_of (rooms ?s2) ''r1'' of None \<Rightarrow> [] | Some r \<Rightarrow> code r))]"
    by blast
  with m have 3: "filter (\<lambda>d. is_Code_change (snd d))
     (snd (on_joinRoom ascii_lower ?s2 ''b'' ''carol'' ''r1'')) = [(''b'', Code_change ''x=1'')]"
    by simp
  from n m nt 1 2 3 show ?thesis by blast
qed

lemma on_chat_message_effect:
  assumes "room_of_socket s sid = Some roomId" and "roomId \<noteq> []"
    and "map_of (rooms s) roomId = Some r" and "map_of (users r) sid = Some u"
  shows "on_chat_message s sid m now =
           (s, map (\<lambda>k. (k, Chat_message (messageToSend m u sid now)))
                 (filter (\<lambda>k. k \<noteq> sid) (in_room s roomId))) \<and>
         username_msg (messageToSend m u sid now) = Some (username u) \<and>
         sender (messageToSend m u sid now) = sid \<and>
         text_msg (messageToSend m u sid now) = text_msg m \<and>
         id_msg (messageToSend m u sid now) = id_msg m \<and>
         sid \<notin> fst ` set (snd (on_chat_message s sid m now))"
proof -
  from assms have g: "guarded_room s (room_of_socket s sid) = Some (roomId, r)"
    by (simp add: guarded_room_Some)
  with assms(4) have 1: "on_chat_message s sid m now =
           (s, map (\<lambda>k. (k, Chat_message (messageToSend m u sid now)))
                 (filter (\<lambda>k. k \<noteq> sid) (in_room s roomId)))"
    by (simp add: on_chat_message_def socket_to_emit_def)
  have "sid \<notin> fst ` set (snd (on_chat_message s sid m now))"
    by (auto simp: 1)
  with 1 show ?thesis by (simp add: messageToSend_def)
qed

lemma registries_on_disconnect:
  "socketToRoomMap (fst (on_disconnect s sid)) = AList.delete sid (socketToRoomMap s)"
  "socketToClientMap (fst (on_disconnect s sid)) = AList.delete sid (socketToClientMap s)"
  by (simp_all add: on_disconnect_def Let_def split: option.splits prod.splits)

lemma map_of_delete_same: "map_of (AList.delete k al) k = None"
  by (simp add: AList.delete_conv')

lemma on_disconnect_unregistered:
  assumes "map_of (socketToRoomMap s) sid = None" and "map_of (socketToClientMap s) sid = None"
  shows "on_disconnect s sid = (s, [])"
proof -
  from assms have "sid \<notin> fst ` set (socketToRoomMap s)" "sid \<notin> fst ` set (socketToClientMap s)"
    by (simp_all add: map_of_eq_None_iff)
  then have "AList.delete sid (socketToRoomMap s) = socketToRoomMap s"
    "AList.delete sid (socketToClientMap s) = socketToClientMap s"
    by simp_all
  moreover from assms(1) have "guarded_room s (map_of (socketToRoomMap s) sid) = None"
    by (simp add: guarded_room_def)
  ultimately show ?thesis by (simp add: on_disconnect_no_room)
qed

text \<open>
  C9: the disconnect handler, run for a socket id that is in neither registry, leaves
  the whole state (the \<open>rooms\<close> map and both registries) as it is and delivers
  nothing. So running it twice for the same socket id is running it once: the second
  run changes nothing and delivers nothing.
\<close>

theorem disconnect_idempotent:
  "(map_of (socketToRoomMap s) sid = None \<and> map_of (socketToClientMap s) sid = None \<longrightarrow>
      on_disconnect s sid = (s, [])) \<and>
   on_disconnect (fst (on_disconnect s sid)) sid = (fst (on_disconnect s sid), [])"
  by (simp add: on_disconnect_unregistered registries_on_disconnect map_of_delete_same)

theorem disconnect_idempotent_witness:
  "map_of (socketToRoomMap (run ascii_lower [Ev_connection ''a'' (Some ''c1'') None,
      Ev_joinRoom ''a'' ''alice'' ''r1'', Ev_disconnect ''a''])) ''a'' = None \<and>
   map_of (socketToClientMap (run ascii_lower [Ev_connection ''a'' (Some ''c1'') None,
      Ev_joinRoom ''a'' ''alice'' ''r1'', Ev_disconnect ''a''])) ''a'' = None \<and>
   on_disconnect (run ascii_lower [Ev_connection ''a'' (Some ''c1'') None,
      Ev_joinRoom ''a'' ''alice'' ''r1'', Ev_disconnect ''a'']) ''a'' =
     (run ascii_lower [Ev_connection ''a'' (Some ''c1'') None,
      Ev_joinRoom ''a'' ''alice'' ''r1'', Ev_disconnect ''a''], [])"
proof -
  let ?s = "run ascii_lower [Ev_connection ''a'' (Some ''c1'') None,
      Ev_joinRoom ''a'' ''alice'' ''r1'', Ev_disconnect ''a'']"
  have 1: "map_of (socketToRoomMap ?s) ''a'' = None" by code_simp
  have 2: "map_of (socketToClientMap ?s) ''a'' = None" by code_simp
  from disconnect_idempotent [of ?s "''a''"] 1 2 show ?thesis by blast
qed

text \<open>
  C6, on the code: a socket that joins room \<open>r1\<close> and then room \<open>r2\<close> is a member of
  both afterwards, since \<open>joinRoom\<close> leaves the socket.io room \<open>r1\<close> but does not take
  the socket out of the users of \<open>r1\<close>. When the socket disconnects, only \<open>r2\<close> is
  cleaned up: \<open>r1\<close> stays in \<open>rooms\<close> with the socket as its member.
\<close>

theorem rejoin_keeps_stale_member:
  "exec ascii_lower init [Ev_connection ''a'' None None, Ev_joinRoom ''a'' ''alice'' ''r1'',
              Ev_joinRoom ''a'' ''alice'' ''r2''] =
     Some (run ascii_lower [Ev_connection ''a'' None None, Ev_joinRoom ''a'' ''alice'' ''r1'',
                Ev_joinRoom ''a'' ''alice'' ''r2'']) \<and>
   rooms (run ascii_lower [Ev_connection ''a'' None None, Ev_joinRoom ''a'' ''alice'' ''r1'',
               Ev_joinRoom ''a'' ''alice'' ''r2'']) =
     [(''r1'', \<lparr>users = [(''a'', \<lparr>id_user = ''a'', username = ''alice'', peerId = None,
                                   sockets = [''a'']\<rparr>)], code = []\<rparr>),
      (''r2'', \<lparr>users = [(''a'', \<lparr>id_user = ''a'', username = ''alice'', peerId = None,
                                   sockets = [''a'']\<rparr>)], code = []\<rparr>)] \<and>
   exec ascii_lower init [Ev_connection ''a'' None None, Ev_joinRoom ''a'' ''alice'' ''r1'',
              Ev_joinRoom ''a'' ''alice'' ''r2'', Ev_disconnect ''a''] =
     Some \<lparr>rooms = [(''r1'', \<lparr>users = [(''a'', \<lparr>id_user = ''a'', username = ''alice'',
                                   peerId = None, sockets = [''a'']\<rparr>)], code = []\<rparr>)],
           socketToClientMap = [], socketToRoomMap = [], adapter = []\<rparr>"
  by code_simp

subsection \<open>The broadcast member lists\<close>



















subsection \<open>The member list of each trigger\<close>













subsection \<open>Rejected joins\<close>




subsection \<open>Broadcasts that miss a member of the room\<close>

text \<open>
  C2, on the code: two runs in which an edit from a socket registered to an existing
  room does not do what the claim says. After \<open>rejected_join_run\<close>, socket \<open>a\<close> is still a
  user of \<open>r1\<close>, still registered to \<open>r1\<close> and still connected, but the handler of its
  rejected \<open>joinRoom\<close> has taken it out of the socket.io room: the edit of \<open>b\<close> overwrites
  the buffer of \<open>r1\<close> and is delivered to nobody. After \<open>empty_key_run\<close> the room keyed by
  the empty string exists with \<open>a\<close> and \<open>b\<close> in it: the guard
  \<open>roomId && rooms.has(roomId)\<close> drops the edit of \<open>a\<close>, the buffer stays as it was and
  \<open>b\<close> gets nothing.
\<close>

theorem code_change_misses_member:
  "exec ascii_lower init rejected_join_run = Some (run ascii_lower rejected_join_run) \<and>
   map_of (rooms (run ascii_lower rejected_join_run)) ''r1'' =
     Some \<lparr>users = [(''a'', \<lparr>id_user = ''a'', username = ''alice'', peerId = None,
                              sockets = [''a'']\<rparr>),
                      (''b'', \<lparr>id_user = ''b'', username = ''bob'', peerId = None,
                              sockets = [''b'']\<rparr>)], code = []\<rparr> \<and>
   map_of (socketToRoomMap (run ascii_lower rejected_join_run)) ''a'' = Some ''r1'' \<and>
   connected (run ascii_lower rejected_join_run) ''a'' \<and>
   room_of_socket (run ascii_lower rejected_join_run) ''b'' = Some ''r1'' \<and>
   map_option code
     (map_of (rooms (fst (on_code_change (run ascii_lower rejected_join_run) ''b'' ''x=1''))) ''r1'') =
     Some ''x=1'' \<and>
   snd (on_code_change (run ascii_lower rejected_join_run) ''b'' ''x=1'') = [] \<and>
   exec ascii_lower init empty_key_run = Some (run ascii_lower empty_key_run) \<and>
   map_of (rooms (run ascii_lower empty_key_run)) [] =
     Some \<lparr>users = [(''a'', \<lparr>id_user = ''a'', username = ''alice'', peerId = None,
                              sockets = [''a'']\<rparr>),
                      (''b'', \<lparr>id_user = ''b'', username = ''bob'', peerId = None,
                              sockets = [''b'']\<rparr>)], code = []\<rparr> \<and>
   map_of (socketToRoomMap (run ascii_lower empty_key_run)) ''a'' = Some [] \<and>
   in_room (run ascii_lower empty_key_run) [] = [''a'', ''b''] \<and>
   on_code_change (run ascii_lower empty_key_run) ''a'' ''x=1'' =
     (run ascii_lower empty_key_run, [])"
  by code_simp

text \<open>
  C8, on the code: the same two runs with a chat message. After \<open>rejected_join_run\<close>,
  \<open>a\<close> is a user of \<open>r1\<close>, registered to it and connected, and the message of \<open>b\<close> is
  delivered to nobody. After \<open>empty_key_run\<close> the message of \<open>a\<close> is dropped by the
  guard, though \<open>b\<close> is in the room with it.
\<close>

theorem chat_message_misses_member:
  "exec ascii_lower init rejected_join_run = Some (run ascii_lower rejected_join_run) \<and>
   map_option (map fst \<circ> users) (map_of (rooms (run ascii_lower rejected_join_run)) ''r1'') =
     Some [''a'', ''b''] \<and>
   map_of (socketToRoomMap (run ascii_lower rejected_join_run)) ''a'' = Some ''r1'' \<and>
   connected (run ascii_lower rejected_join_run) ''a'' \<and>
   room_of_socket (run ascii_lower rejected_join_run) ''b'' = Some ''r1'' \<and>
   on_chat_message (run ascii_lower rejected_join_run) ''b''
     \<lparr>id_msg = Some ''m1'', text_msg = ''hi'', sender = ''b'', timestamp = ''t0'',
      username_msg = Some ''bob''\<rparr> ''t1'' =
     (run ascii_lower rejected_join_run, []) \<and>
   exec ascii_lower init empty_key_run = Some (run ascii_lower empty_key_run) \<and>
   map_option (map fst \<circ> users) (map_of (rooms (run ascii_lower empty_key_run)) []) =
     Some [''a'', ''b''] \<and>
   map_of (socketToRoomMap (run ascii_lower empty_key_run)) ''a'' = Some [] \<and>
   in_room (run ascii_lower empty_key_run) [] = [''a'', ''b''] \<and>
   on_chat_message (run ascii_lower empty_key_run) ''a''
     \<lparr>id_msg = Some ''m1'', text_msg = ''hi'', sender = ''a'', timestamp = ''t0'',
      username_msg = Some ''alice''\<rparr> ''t1'' =
     (run ascii_lower empty_key_run, [])"
  by code_simp

end
